theory Spec2Isabelle
  imports Main "HOL-Library.AList"
begin

section \<open>The call-matching engine of server.js\<close>

text \<open>
  The server keeps three process-wide stores (server.js, lines 18-20) and mutates them in
  socket.io event handlers that run to completion one after the other.  The embedding
  below passes the three stores explicitly as one record and lets every handler return
  the new stores together with the notifications it emitted, in emission order.

  Connection identifiers are JavaScript strings.  The handlers test identifiers for
  truthiness (\<^verbatim>\<open>if (freeAgentId)\<close>, \<^verbatim>\<open>if (pairings[socket.id])\<close>,
  \<^verbatim>\<open>if (nextSupplier)\<close>); for a string that test fails exactly on the empty
  string, and the model keeps it.  socket.io never assigns an empty \<^verbatim>\<open>socket.id\<close>,
  but \<^verbatim>\<open>supplierId\<close> and \<^verbatim>\<open>partnerId\<close> come from the client's payload and
  can be any string.

  The two objects \<^verbatim>\<open>agents\<close> and \<^verbatim>\<open>pairings\<close> are association lists in
  insertion order, which is the order \<^verbatim>\<open>Object.keys\<close> enumerates string keys that
  are not array indices: assigning to an existing key keeps its place, assigning to a new
  key appends it, \<^verbatim>\<open>delete\<close> removes it.  Both are plain objects, so the
  key \<^verbatim>\<open>__proto__\<close> is special: assigning a string to it reaches the setter
  inherited from \<^verbatim>\<open>Object.prototype\<close>, which ignores the string, and no key is
  created (\<open>setPairing\<close> below).  The other members of \<^verbatim>\<open>Object.prototype\<close>
  are shadowed by an assignment like any key; where a handler reads one of them under a
  key that is not in the table, it either clears a flag on the inherited object or
  deletes nothing, and the three stores stay as they are, as in the model.  The keys of
  \<^verbatim>\<open>agents\<close> are only ever values of \<^verbatim>\<open>socket.id\<close>, which socket.io
  assigns: theorems that need an agent key or a sender to be such an identifier say so
  as a hypothesis (not empty, not \<^verbatim>\<open>__proto__\<close>).

  A listener that destructures its payload (\<^verbatim>\<open>({ supplierId }) => ...\<close>) throws a
  TypeError when the event arrives with no payload (\<^verbatim>\<open>undefined\<close> or
  \<^verbatim>\<open>null\<close>); \<open>receive\<close> below has that outcome.  Payload fields that are not
  strings are outside the model.
\<close>

type_synonym sid = string

record agent =
  name :: string
  busy :: bool

datatype message =
    AgentRegistered string nat
  | QueueStatus int
  | IncomingCall sid
  | CallRequested sid
  | CallAccepted sid
  | CallStarted sid
  | AgentDisconnected
  | SupplierDisconnected sid
  | CallEnded sid
  | WebrtcOffer sid string
  | WebrtcAnswer sid string
  | WebrtcCandidate sid string

text \<open>An emitted notification: the connection it is addressed to, and the message.\<close>

type_synonym emit = "sid \<times> message"

record state =
  agents :: "(sid \<times> agent) list"
  waitingQueue :: "sid list"
  pairings :: "(sid \<times> sid) list"

definition init :: state where
  "init = \<lparr>agents = [], waitingQueue = [], pairings = []\<rparr>"

subsection \<open>JavaScript primitives used by the handlers\<close>

text \<open>
  Truthiness of an expression that evaluates to \<^verbatim>\<open>undefined\<close> (\<open>None\<close>) or to a
  string.
\<close>

definition truthy :: "string option \<Rightarrow> bool" where
  "truthy v = (case v of None \<Rightarrow> False | Some s \<Rightarrow> s \<noteq> [])"

text \<open>\<^verbatim>\<open>Array.prototype.indexOf\<close>: the index of the first occurrence, or \<open>-1\<close>.\<close>

fun indexOf :: "sid list \<Rightarrow> sid \<Rightarrow> int" where
  "indexOf [] x = - 1"
| "indexOf (y # ys) x =
     (if y = x then 0 else (let r = indexOf ys x in if r < 0 then - 1 else r + 1))"

text \<open>\<^verbatim>\<open>xs.splice(i, 1)\<close> for an index \<open>i\<close> inside the array.\<close>

definition splice1 :: "nat \<Rightarrow> sid list \<Rightarrow> sid list" where
  "splice1 i xs = take i xs @ drop (Suc i) xs"

text \<open>\<^verbatim>\<open>agents[i].busy = b\<close> for a key \<open>i\<close> of \<^verbatim>\<open>agents\<close>.\<close>

definition setBusy :: "sid \<Rightarrow> bool \<Rightarrow> (sid \<times> agent) list \<Rightarrow> (sid \<times> agent) list" where
  "setBusy i b ags = AList.map_entry i (\<lambda>r. r\<lparr>busy := b\<rparr>) ags"

text \<open>
  \<^verbatim>\<open>pairings[k] = v\<close> for a string \<open>v\<close>.  The table is a plain object
  (line 20): under the key \<^verbatim>\<open>__proto__\<close> the assignment stores nothing.
\<close>

definition setPairing :: "sid \<Rightarrow> sid \<Rightarrow> (sid \<times> sid) list \<Rightarrow> (sid \<times> sid) list" where
  "setPairing k v ps = (if k = ''__proto__'' then ps else AList.update k v ps)"

text \<open>
  server.js, lines 22-24:
  \<^verbatim>\<open>Object.keys(agents).find(id => agents[id].busy === false)\<close>.
\<close>

definition findFreeAgent :: "state \<Rightarrow> sid option" where
  "findFreeAgent st =
     List.find (\<lambda>i. case map_of (agents st) i of None \<Rightarrow> False | Some r \<Rightarrow> busy r = False)
       (map fst (agents st))"

subsection \<open>The event handlers\<close>

text \<open>
  In every handler \<open>s\<close> is \<^verbatim>\<open>socket.id\<close>, the connection the event came from.
  \<^verbatim>\<open>socket.emit\<close> addresses \<open>s\<close>; \<^verbatim>\<open>io.to(x).emit\<close> addresses \<open>x\<close>.
  Each definition is the body of a listener, run on the fields of a payload that is
  there; \<open>receive\<close>, further down, is the listener with its parameter list.
\<close>

text \<open>agent-register, lines 32-36.  The payload's \<^verbatim>\<open>name\<close> may be absent.\<close>

definition agent_register :: "sid \<Rightarrow> string option \<Rightarrow> state \<Rightarrow> state \<times> emit list" where
  "agent_register s nm st =
     (let r = \<lparr>name = (if truthy nm then the nm else ''Agent-'' @ take 5 s), busy = False\<rparr>;
          st1 = st\<lparr>agents := AList.update s r (agents st)\<rparr>
      in (st1, [(s, AgentRegistered (name r) (length (waitingQueue st1)))]))"

text \<open>supplier-call, lines 39-59.\<close>

definition supplier_call :: "sid \<Rightarrow> state \<Rightarrow> state \<times> emit list" where
  "supplier_call s st =
     (if s \<in> set (waitingQueue st)
      then (st, [(s, QueueStatus (indexOf (waitingQueue st) s + 1))])
      else
        (let freeAgentId = findFreeAgent st in
         if truthy freeAgentId
         then
           (let a = the freeAgentId;
                ags = setBusy a True (agents st);
                ps = setPairing a s (setPairing s a (pairings st))
            in (st\<lparr>agents := ags, pairings := ps\<rparr>,
                [(a, IncomingCall s), (s, CallRequested a)]))
         else
           (let q = waitingQueue st @ [s]
            in (st\<lparr>waitingQueue := q\<rparr>, [(s, QueueStatus (int (length q)))]))))"

text \<open>agent-accept, lines 62-71.\<close>

definition agent_accept :: "sid \<Rightarrow> sid \<Rightarrow> state \<Rightarrow> state \<times> emit list" where
  "agent_accept s supplierId st =
     (if map_of (agents st) s = None then (st, [])
      else
        (let ps = setPairing s supplierId (setPairing supplierId s (pairings st));
             ags = setBusy s True (agents st)
         in (st\<lparr>agents := ags, pairings := ps\<rparr>,
             [(supplierId, CallAccepted s), (s, CallStarted supplierId)])))"

text \<open>agent-reject, lines 74-87.\<close>

definition agent_reject :: "sid \<Rightarrow> sid \<Rightarrow> state \<Rightarrow> state \<times> emit list" where
  "agent_reject s supplierId st =
     (let st1 = (if map_of (agents st) s \<noteq> None
                 then st\<lparr>agents := setBusy s False (agents st)\<rparr> else st);
          freeAgent = findFreeAgent st1
      in if truthy freeAgent
         then
           (let a = the freeAgent;
                ags = setBusy a True (agents st1);
                ps = setPairing a supplierId (setPairing supplierId a (pairings st1))
            in (st1\<lparr>agents := ags, pairings := ps\<rparr>,
                [(a, IncomingCall supplierId), (supplierId, CallRequested a)]))
         else
           (let q = (if supplierId \<in> set (waitingQueue st1) then waitingQueue st1
                     else waitingQueue st1 @ [supplierId])
            in (st1\<lparr>waitingQueue := q\<rparr>,
                [(supplierId, QueueStatus (indexOf q supplierId + 1))])))"

text \<open>The signalling relay, lines 90-100: no store is touched.\<close>

definition webrtc_offer :: "sid \<Rightarrow> sid \<Rightarrow> string \<Rightarrow> state \<Rightarrow> state \<times> emit list" where
  "webrtc_offer s to sdp st = (st, [(to, WebrtcOffer s sdp)])"

definition webrtc_answer :: "sid \<Rightarrow> sid \<Rightarrow> string \<Rightarrow> state \<Rightarrow> state \<times> emit list" where
  "webrtc_answer s to sdp st = (st, [(to, WebrtcAnswer s sdp)])"

definition webrtc_candidate :: "sid \<Rightarrow> sid \<Rightarrow> string \<Rightarrow> state \<Rightarrow> state \<times> emit list" where
  "webrtc_candidate s to candidate st = (st, [(to, WebrtcCandidate s candidate)])"

text \<open>
  end-call, lines 103-125, in the two parts the handler has: the teardown of lines
  104-111 (clear the busy flags, delete the pairing entries, notify the partner) and the
  promotion of lines 113-124 (offer the queue front to the first free agent).
\<close>

definition end_call_teardown :: "sid \<Rightarrow> sid \<Rightarrow> state \<Rightarrow> state \<times> emit list" where
  "end_call_teardown s partnerId st =
     (let other = partnerId;
          ags1 = (if map_of (agents st) s \<noteq> None
                  then setBusy s False (agents st) else agents st);
          ags2 = (if map_of ags1 other \<noteq> None then setBusy other False ags1 else ags1);
          ps1 = (if truthy (map_of (pairings st) s)
                 then AList.delete s (pairings st) else pairings st);
          ps2 = (if truthy (map_of ps1 other) then AList.delete other ps1 else ps1)
      in (st\<lparr>agents := ags2, pairings := ps2\<rparr>, [(other, CallEnded s)]))"

definition end_call_promote :: "state \<Rightarrow> state \<times> emit list" where
  "end_call_promote st =
     (let freeAgent = findFreeAgent st in
      if truthy freeAgent \<and> length (waitingQueue st) > 0
      then
        (let a = the freeAgent;
             nextSupplier = hd (waitingQueue st);
             st1 = st\<lparr>waitingQueue := tl (waitingQueue st)\<rparr>
         in if nextSupplier \<noteq> []
            then
              (let ags = setBusy a True (agents st1);
                   ps = setPairing nextSupplier a (setPairing a nextSupplier (pairings st1))
               in (st1\<lparr>agents := ags, pairings := ps\<rparr>,
                   [(a, IncomingCall nextSupplier), (nextSupplier, CallRequested a)]))
            else (st1, []))
      else (st, []))"

definition end_call :: "sid \<Rightarrow> sid \<Rightarrow> state \<Rightarrow> state \<times> emit list" where
  "end_call s partnerId st =
     (let (st1, out1) = end_call_teardown s partnerId st;
          (st2, out2) = end_call_promote st1
      in (st2, out1 @ out2))"

text \<open>disconnect, lines 128-162: the agent branch returns at line 149.\<close>

definition disconnect :: "sid \<Rightarrow> state \<Rightarrow> state \<times> emit list" where
  "disconnect s st =
     (if map_of (agents st) s \<noteq> None
      then
        (let supplier = map_of (pairings st) s;
             (st2, out) =
               (if truthy supplier
                then
                  (let sup = the supplier;
                       st1 = st\<lparr>pairings := AList.delete sup (pairings st)\<rparr>;
                       freeAgent = findFreeAgent st1
                   in if truthy freeAgent
                      then
                        (let a = the freeAgent;
                             ags = setBusy a True (agents st1);
                             ps = setPairing sup a (setPairing a sup (pairings st1))
                         in (st1\<lparr>agents := ags, pairings := ps\<rparr>,
                             [(sup, AgentDisconnected), (a, IncomingCall sup),
                              (sup, CallRequested a)]))
                      else
                        (let q = waitingQueue st1 @ [sup]
                         in (st1\<lparr>waitingQueue := q\<rparr>,
                             [(sup, AgentDisconnected),
                              (sup, QueueStatus (indexOf q sup + 1))])))
                else (st, []))
         in (st2\<lparr>agents := AList.delete s (agents st2),
                  pairings := AList.delete s (pairings st2)\<rparr>, out))
      else
        (let qIndex = indexOf (waitingQueue st) s;
             q = (if qIndex \<ge> 0 then splice1 (nat qIndex) (waitingQueue st)
                  else waitingQueue st);
             pairedAgent = map_of (pairings st) s;
             (ags, ps, out) =
               (if truthy pairedAgent
                then
                  (let p = the pairedAgent
                   in ((if map_of (agents st) p \<noteq> None
                        then setBusy p False (agents st) else agents st),
                       AList.delete p (pairings st),
                       [(p, SupplierDisconnected s)]))
                else (agents st, pairings st, []))
         in (\<lparr>agents = ags, waitingQueue = q, pairings = AList.delete s ps\<rparr>, out)))"

subsection \<open>Events and runs\<close>

datatype event =
    AgentRegister "string option"
  | SupplierCall
  | AgentAccept sid
  | AgentReject sid
  | WebrtcOfferEv sid string
  | WebrtcAnswerEv sid string
  | WebrtcCandidateEv sid string
  | EndCall sid
  | Disconnect

fun handle :: "sid \<Rightarrow> event \<Rightarrow> state \<Rightarrow> state \<times> emit list" where
  "handle s (AgentRegister nm) st = agent_register s nm st"
| "handle s SupplierCall st = supplier_call s st"
| "handle s (AgentAccept supplierId) st = agent_accept s supplierId st"
| "handle s (AgentReject supplierId) st = agent_reject s supplierId st"
| "handle s (WebrtcOfferEv to sdp) st = webrtc_offer s to sdp st"
| "handle s (WebrtcAnswerEv to sdp) st = webrtc_answer s to sdp st"
| "handle s (WebrtcCandidateEv to c) st = webrtc_candidate s to c st"
| "handle s (EndCall partnerId) st = end_call s partnerId st"
| "handle s Disconnect st = disconnect s st"

text \<open>
  What arrives on a socket is an event name with or without a payload.  The listeners of
  agent-register, agent-accept, agent-reject, the three relay events and end-call
  destructure their first argument (lines 32, 62, 74, 90, 94, 98, 103); with no payload
  the destructuring throws before the body runs, and server.js catches nothing.
  supplier-call and disconnect take no argument.  \<open>Carrying e\<close> is an event that
  arrived with what its listener destructures; \<open>Bare k\<close> is an event of kind \<open>k\<close>
  that arrived with \<^verbatim>\<open>undefined\<close> or \<^verbatim>\<open>null\<close> in place of the payload.
\<close>

datatype error = TypeError

datatype kind =
    KAgentRegister
  | KAgentAccept
  | KAgentReject
  | KWebrtcOffer
  | KWebrtcAnswer
  | KWebrtcCandidate
  | KEndCall

datatype inbound = Carrying event | Bare kind

fun receive :: "sid \<Rightarrow> inbound \<Rightarrow> state \<Rightarrow> error + state \<times> emit list" where
  "receive s (Carrying e) st = Inr (handle s e st)"
| "receive s (Bare k) st = Inl TypeError"

text \<open>
  The state between handled events: the events of a run, each with its payload, are
  handled one after the other, each to completion, from the empty stores the process
  starts with.
\<close>

fun run :: "(sid \<times> event) list \<Rightarrow> state \<Rightarrow> state" where
  "run [] st = st"
| "run ((s, e) # es) st = run es (fst (handle s e st))"

subsection \<open>The properties the stores are meant to keep between events\<close>

text \<open>
  Symmetry of the pairing table: every key \<open>k\<close> with \<^verbatim>\<open>pairings[k] = v\<close> has
  \<^verbatim>\<open>pairings[v] = k\<close>.
\<close>

definition pairing_symmetric :: "state \<Rightarrow> bool" where
  "pairing_symmetric st =
     list_all (\<lambda>k. case map_of (pairings st) k of None \<Rightarrow> True
                    | Some v \<Rightarrow> map_of (pairings st) v = Some k)
       (map fst (pairings st))"

text \<open>Every registered agent is busy exactly when it is a key of the pairing table.\<close>

definition busy_iff_paired :: "state \<Rightarrow> bool" where
  "busy_iff_paired st =
     list_all (\<lambda>(i, r). busy r = (map_of (pairings st) i \<noteq> None)) (agents st)"

text \<open>No member of the waiting queue is a key of the pairing table.\<close>

definition queue_pairing_exclusive :: "state \<Rightarrow> bool" where
  "queue_pairing_exclusive st =
     list_all (\<lambda>i. map_of (pairings st) i = None) (waitingQueue st)"

text \<open>No identifier is in the waiting queue twice.\<close>

definition queue_unique :: "state \<Rightarrow> bool" where
  "queue_unique st = distinct (waitingQueue st)"

subsection \<open>Runs used below\<close>

text \<open>One agent, one supplier offered to it.\<close>

definition offer_trace :: "(sid \<times> event) list" where
  "offer_trace = [(''A1'', AgentRegister None), (''S1'', SupplierCall)]"

text \<open>
  Two agents, each offered a supplier; the first call ends, then the second agent rejects
  its supplier.
\<close>

definition reject_trace :: "(sid \<times> event) list" where
  "reject_trace =
     [(''A1'', AgentRegister None), (''S1'', SupplierCall),
      (''A2'', AgentRegister None), (''S2'', SupplierCall),
      (''S1'', EndCall ''A1''), (''A2'', AgentReject ''S2'')]"

text \<open>A supplier that was offered to the only agent asks for a call again.\<close>

definition recall_trace :: "(sid \<times> event) list" where
  "recall_trace =
     [(''A1'', AgentRegister None), (''S1'', SupplierCall), (''S1'', SupplierCall)]"

text \<open>The same, and then the agent's connection drops.\<close>

definition recall_drop_trace :: "(sid \<times> event) list" where
  "recall_drop_trace =
     [(''A1'', AgentRegister None), (''S1'', SupplierCall), (''S1'', SupplierCall),
      (''A1'', Disconnect)]"

text \<open>
  A connection that is not an agent sends agent-reject with an empty \<^verbatim>\<open>supplierId\<close>
  while the only agent is busy.
\<close>

definition empty_reject_trace :: "(sid \<times> event) list" where
  "empty_reject_trace =
     [(''A1'', AgentRegister None), (''S1'', SupplierCall), (''X1'', AgentReject '''')]"

text \<open>The same with the \<^verbatim>\<open>supplierId\<close> \<^verbatim>\<open>__proto__\<close>.\<close>

definition proto_reject_trace :: "(sid \<times> event) list" where
  "proto_reject_trace =
     [(''A1'', AgentRegister None), (''S1'', SupplierCall),
      (''X1'', AgentReject ''__proto__'')]"

text \<open>
  A supplier waits in the queue while the only agent is busy; then the agent's supplier
  disconnects, which frees the agent and promotes nobody.
\<close>

definition idle_agent_trace :: "(sid \<times> event) list" where
  "idle_agent_trace =
     [(''A1'', AgentRegister None), (''S1'', SupplierCall), (''S2'', SupplierCall),
      (''S1'', Disconnect)]"

text \<open>
  The first agent is busy with a supplier and a second agent has registered.
\<close>

definition second_agent_trace :: "(sid \<times> event) list" where
  "second_agent_trace =
     [(''A1'', AgentRegister None), (''S1'', SupplierCall), (''A2'', AgentRegister None)]"

text \<open>An agent sends agent-accept with an empty \<^verbatim>\<open>supplierId\<close>.\<close>

definition empty_accept_trace :: "(sid \<times> event) list" where
  "empty_accept_trace = [(''A1'', AgentRegister None), (''A1'', AgentAccept '''')]"

section \<open>Properties\<close>

subsection \<open>Auxiliary facts about the primitives\<close>

lemma findFreeAgent_Some:
  "findFreeAgent st = Some a \<Longrightarrow> \<exists>r. map_of (agents st) a = Some r \<and> \<not> busy r"
  unfolding findFreeAgent_def by (auto simp: find_Some_iff split: option.splits)

lemma findFreeAgent_key:
  "findFreeAgent st = Some a \<Longrightarrow> a \<in> set (map fst (agents st))"
  unfolding findFreeAgent_def by (auto simp: find_Some_iff)

lemma map_of_setBusy:
  "map_of (setBusy i b ags) k =
     (if k = i then map_option (\<lambda>r. r\<lparr>busy := b\<rparr>) (map_of ags i) else map_of ags k)"
  unfolding setBusy_def by (simp add: map_of_map_entry split: option.splits)

lemma keys_setBusy: "map fst (setBusy i b ags) = map fst ags"
  unfolding setBusy_def by (induction ags) auto

lemma indexOf_mem:
  "x \<in> set xs \<Longrightarrow> 0 \<le> indexOf xs x \<and> indexOf xs x < int (length xs)
     \<and> xs ! nat (indexOf xs x) = x \<and> x \<notin> set (take (nat (indexOf xs x)) xs)"
proof (induction xs)
  case Nil
  then show ?case by simp
next
  case (Cons y ys)
  show ?case
  proof (cases "y = x")
    case True
    then show ?thesis by simp
  next
    case False
    with Cons.prems have m: "x \<in> set ys" by simp
    from Cons.IH [OF m] False show ?thesis
      by (auto simp: Let_def nat_add_distrib)
  qed
qed

lemma indexOf_not_mem: "x \<notin> set xs \<Longrightarrow> indexOf xs x = - 1"
  by (induction xs) (auto simp: Let_def)

lemma pairing_symmetric_iff:
  "pairing_symmetric st \<longleftrightarrow>
     (\<forall>k v. map_of (pairings st) k = Some v \<longrightarrow> map_of (pairings st) v = Some k)"
proof
  assume sym: "pairing_symmetric st"
  show "\<forall>k v. map_of (pairings st) k = Some v \<longrightarrow> map_of (pairings st) v = Some k"
  proof (intro allI impI)
    fix k v
    assume kv: "map_of (pairings st) k = Some v"
    then have "k \<in> fst ` set (pairings st)"
      by (metis map_of_SomeD fst_conv imageI)
    then have "k \<in> set (map fst (pairings st))" by simp
    with sym have "case map_of (pairings st) k of None \<Rightarrow> True
                    | Some v \<Rightarrow> map_of (pairings st) v = Some k"
      unfolding pairing_symmetric_def list_all_iff by blast
    with kv show "map_of (pairings st) v = Some k" by simp
  qed
next
  assume h: "\<forall>k v. map_of (pairings st) k = Some v \<longrightarrow> map_of (pairings st) v = Some k"
  show "pairing_symmetric st"
    unfolding pairing_symmetric_def list_all_iff
  proof
    fix k assume "k \<in> set (map fst (pairings st))"
    show "case map_of (pairings st) k of None \<Rightarrow> True
                    | Some v \<Rightarrow> map_of (pairings st) v = Some k"
    proof (cases "map_of (pairings st) k")
      case None
      then show ?thesis by simp
    next
      case (Some v)
      with h have "map_of (pairings st) v = Some k" by blast
      with Some show ?thesis by simp
    qed
  qed
qed

text \<open>The two parts of end-call.\<close>

lemma teardown_emits:
  "snd (end_call_teardown s p st) = [(p, CallEnded s)]"
  by (simp add: end_call_teardown_def Let_def)

lemma teardown_queue:
  "waitingQueue (fst (end_call_teardown s p st)) = waitingQueue st"
  by (simp add: end_call_teardown_def Let_def)

lemma teardown_agent_keys:
  "map fst (agents (fst (end_call_teardown s p st))) = map fst (agents st)"
  by (simp add: end_call_teardown_def Let_def keys_setBusy)

lemma teardown_agents:
  "map_of (agents (fst (end_call_teardown s p st))) k =
     (if k = s \<or> k = p then map_option (\<lambda>r. r\<lparr>busy := False\<rparr>) (map_of (agents st) k)
      else map_of (agents st) k)"
  by (cases "map_of (agents st) s"; cases "map_of (agents st) p")
     (auto simp add: end_call_teardown_def Let_def map_of_setBusy)

lemma teardown_pairings:
  "map_of (pairings (fst (end_call_teardown s p st))) k =
     (if (k = s \<or> k = p) \<and> truthy (map_of (pairings st) k) then None
      else map_of (pairings st) k)"
  by (auto simp add: end_call_teardown_def Let_def delete_conv' truthy_def split: option.splits)

lemma end_call_split:
  "end_call s p st =
     (fst (end_call_promote (fst (end_call_teardown s p st))),
      snd (end_call_teardown s p st) @ snd (end_call_promote (fst (end_call_teardown s p st))))"
  by (simp add: end_call_def split: prod.splits)

lemma map_of_setPairing:
  "map_of (setPairing k v ps) k' =
     (if k = ''__proto__'' then map_of ps k' else if k' = k then Some v else map_of ps k')"
  by (simp add: setPairing_def update_conv')

text \<open>The search of lines 22-24 finds an agent whenever some record is not busy.\<close>

lemma findFreeAgent_complete:
  assumes "map_of (agents st) i = Some r" and "\<not> busy r"
  shows "\<exists>a. findFreeAgent st = Some a"
proof -
  from assms(1) have "i \<in> set (map fst (agents st))"
    by (metis map_of_SomeD fst_conv imageI set_map)
  with assms have "findFreeAgent st \<noteq> None"
    unfolding findFreeAgent_def find_None_iff by force
  then show ?thesis by blast
qed

lemma promote_front:
  assumes free: "\<exists>i r. map_of (agents st1) i = Some r \<and> \<not> busy r"
    and keys: "\<forall>k \<in> set (map fst (agents st1)). k \<noteq> [] \<and> k \<noteq> ''__proto__''"
    and q: "waitingQueue st1 = q # qs"
  shows "\<exists>st2 out2 a. end_call_promote st1 = (st2, out2)
     \<and> waitingQueue st2 = qs
     \<and> (if q \<noteq> []
         then out2 = [(a, IncomingCall q), (q, CallRequested a)]
            \<and> (\<exists>r. map_of (agents st1) a = Some r \<and> \<not> busy r
                   \<and> map_of (agents st2) a = Some (r\<lparr>busy := True\<rparr>))
            \<and> (\<forall>k. k \<noteq> a \<longrightarrow> map_of (agents st2) k = map_of (agents st1) k)
            \<and> map_of (pairings st2) a = Some q
            \<and> map_of (pairings st2) q =
                (if q = ''__proto__'' then map_of (pairings st1) q else Some a)
            \<and> (\<forall>k. k \<noteq> a \<and> k \<noteq> q \<longrightarrow> map_of (pairings st2) k = map_of (pairings st1) k)
         else out2 = [] \<and> agents st2 = agents st1 \<and> pairings st2 = pairings st1)"
proof -
  from free obtain i r0 where "map_of (agents st1) i = Some r0" "\<not> busy r0" by blast
  from findFreeAgent_complete [OF this] obtain a where a: "findFreeAgent st1 = Some a" ..
  from findFreeAgent_key [OF a] keys have an: "a \<noteq> []" and ap: "a \<noteq> ''__proto__''"
    by blast+
  from findFreeAgent_Some [OF a] obtain r where
    r: "map_of (agents st1) a = Some r" "\<not> busy r" by blast
  show ?thesis
  proof (cases "q = []")
    case True
    with a an q show ?thesis
      by (simp add: end_call_promote_def truthy_def Let_def)
  next
    case False
    define st2 where "st2 = st1\<lparr>waitingQueue := qs, agents := setBusy a True (agents st1),
      pairings := setPairing q a (setPairing a q (pairings st1))\<rparr>"
    have e: "end_call_promote st1 = (st2, [(a, IncomingCall q), (q, CallRequested a)])"
      using a an q False by (simp add: end_call_promote_def truthy_def Let_def st2_def)
    have g: "map_of (agents st2) a = Some (r\<lparr>busy := True\<rparr>)"
      by (simp add: st2_def map_of_setBusy r)
    have f: "\<forall>k. k \<noteq> a \<longrightarrow> map_of (agents st2) k = map_of (agents st1) k"
      by (simp add: st2_def map_of_setBusy)
    have p1: "map_of (pairings st2) a = Some q"
      using ap by (simp add: st2_def map_of_setPairing)
    have p2: "map_of (pairings st2) q =
                (if q = ''__proto__'' then map_of (pairings st1) q else Some a)"
      using ap by (simp add: st2_def map_of_setPairing)
    have p3: "\<forall>k. k \<noteq> a \<and> k \<noteq> q \<longrightarrow> map_of (pairings st2) k = map_of (pairings st1) k"
      by (simp add: st2_def map_of_setPairing)
    have w: "waitingQueue st2 = qs" by (simp add: st2_def)
    from e g f p1 p2 p3 w r False show ?thesis
      by (intro exI [of _ st2] exI [of _ "[(a, IncomingCall q), (q, CallRequested a)]"]
          exI [of _ a]) simp
  qed
qed

subsection \<open>The keys of the agent registry\<close>

text \<open>
  Only agent-register adds a key to \<^verbatim>\<open>agents\<close>, and the key is the sender's
  \<^verbatim>\<open>socket.id\<close>.  So every agent key of a state reached from the empty stores is
  the identifier of a connection that sent an event, whatever the payloads were: no agent
  key is empty or \<^verbatim>\<open>__proto__\<close>, since socket.io assigns no such identifier.
\<close>

lemma keys_update: "set (map fst (AList.update k v al)) = insert k (set (map fst al))"
  using dom_update [of k v al] by simp

lemma keys_delete: "set (map fst (AList.delete k al)) \<subseteq> set (map fst al)"
  using dom_delete_subset [of k al] by simp

lemma agent_register_keys:
  "set (map fst (agents (fst (agent_register s nm st)))) = insert s (set (map fst (agents st)))"
  by (simp add: agent_register_def Let_def keys_update del: set_map)

lemma supplier_call_keys:
  "map fst (agents (fst (supplier_call s st))) = map fst (agents st)"
  by (simp add: supplier_call_def Let_def keys_setBusy)

lemma agent_accept_keys:
  "map fst (agents (fst (agent_accept s x st))) = map fst (agents st)"
  by (simp add: agent_accept_def Let_def keys_setBusy)

lemma agent_reject_keys:
  "map fst (agents (fst (agent_reject s x st))) = map fst (agents st)"
  by (simp add: agent_reject_def Let_def keys_setBusy)

lemma end_call_promote_keys:
  "map fst (agents (fst (end_call_promote st))) = map fst (agents st)"
  by (simp add: end_call_promote_def Let_def keys_setBusy)

lemma end_call_keys:
  "map fst (agents (fst (end_call s p st))) = map fst (agents st)"
  by (simp add: end_call_split end_call_promote_keys teardown_agent_keys)

lemma disconnect_keys:
  "set (map fst (agents (fst (disconnect s st)))) \<subseteq> set (map fst (agents st))"
proof (cases "map_of (agents st) s \<noteq> None")
  case True
  then show ?thesis
    using keys_delete [of s "agents st"] keys_delete [of s "setBusy a True (agents st)" for a]
    by (auto simp add: disconnect_def Let_def keys_setBusy delete_keys split: prod.splits if_splits simp del: set_map)
next
  case False
  then show ?thesis
    by (auto simp add: disconnect_def Let_def keys_setBusy split: prod.splits if_splits simp del: set_map)
qed

lemma handle_agent_keys:
  "set (map fst (agents (fst (handle s e st)))) \<subseteq> insert s (set (map fst (agents st)))"
proof (cases e)
  case (AgentRegister nm)
  then show ?thesis using agent_register_keys [of s nm st] by simp
next
  case SupplierCall
  then show ?thesis using supplier_call_keys [of s st] by (simp del: set_map) auto
next
  case (AgentAccept x)
  then show ?thesis using agent_accept_keys [of s x st] by (simp del: set_map) auto
next
  case (AgentReject x)
  then show ?thesis using agent_reject_keys [of s x st] by (simp del: set_map) auto
next
  case (EndCall x)
  then show ?thesis using end_call_keys [of s x st] by (simp del: set_map) auto
next
  case Disconnect
  then show ?thesis using disconnect_keys [of s st] by (simp del: set_map) auto
qed (simp_all add: webrtc_offer_def webrtc_answer_def webrtc_candidate_def subset_insertI)

lemma run_agent_keys:
  "set (map fst (agents (run evs st))) \<subseteq> fst ` set evs \<union> set (map fst (agents st))"
proof (induction evs arbitrary: st)
  case Nil
  then show ?case by simp
next
  case (Cons ev evs)
  obtain s e where ev: "ev = (s, e)" by (cases ev)
  have "set (map fst (agents (run evs (fst (handle s e st)))))
          \<subseteq> fst ` set evs \<union> set (map fst (agents (fst (handle s e st))))"
    by (rule Cons.IH)
  also have "\<dots> \<subseteq> fst ` set evs \<union> insert s (set (map fst (agents st)))"
    using handle_agent_keys [of s e st] by blast
  finally show ?case using ev by (simp del: set_map)
qed

lemma run_agent_keys_are_socket_ids:
  assumes "\<forall>s \<in> fst ` set evs. s \<noteq> [] \<and> s \<noteq> ''__proto__''"
  shows "\<forall>k \<in> set (map fst (agents (run evs init))). k \<noteq> [] \<and> k \<noteq> ''__proto__''"
proof
  fix k assume "k \<in> set (map fst (agents (run evs init)))"
  with run_agent_keys [of evs init] have "k \<in> fst ` set evs"
    by (auto simp add: init_def simp del: set_map)
  with assms show "k \<noteq> [] \<and> k \<noteq> ''__proto__''" by blast
qed

subsection \<open>agent-reject and the pairing table\<close>

text \<open>
  C1 (symmetry of the pairing table between events).  The handler of agent-reject clears
  the rejecting agent's busy flag and pairs the supplier with the first free agent, but
  never deletes \<^verbatim>\<open>pairings[socket.id]\<close>.  In the run \<open>reject_trace\<close> agent A1 is
  free again when A2 rejects S2, so S2 is offered to A1 and the entry of A2 stays behind:
  after the run \<^verbatim>\<open>pairings[A2] = S2\<close> while \<^verbatim>\<open>pairings[S2] = A1\<close>, and the
  pairing table is not symmetric.
\<close>

theorem reject_breaks_symmetry:
  "run reject_trace init =
     \<lparr>agents = [(''A1'', \<lparr>name = ''Agent-A1'', busy = True\<rparr>),
                (''A2'', \<lparr>name = ''Agent-A2'', busy = False\<rparr>)],
      waitingQueue = [],
      pairings = [(''S2'', ''A1''), (''A2'', ''S2''), (''A1'', ''S2'')]\<rparr>
   \<and> map_of (pairings (run reject_trace init)) ''A2'' = Some ''S2''
   \<and> map_of (pairings (run reject_trace init)) ''S2'' = Some ''A1''
   \<and> \<not> pairing_symmetric (run reject_trace init)"
  by code_simp

text \<open>
  The search of agent-reject runs after the rejecting agent's own busy flag was cleared,
  so for a registered sender it always finds an agent: the branch of lines 83-86 that
  puts the supplier back in the queue is never taken for a rejecting agent.
\<close>

lemma reject_by_registered_agent_never_queues:
  assumes reg: "map_of (agents st) s \<noteq> None"
    and ne: "[] \<notin> set (map fst (agents st))"
  shows "\<exists>a. a \<in> set (map fst (agents st))
           \<and> waitingQueue (fst (agent_reject s supplierId st)) = waitingQueue st
           \<and> snd (agent_reject s supplierId st) =
               [(a, IncomingCall supplierId), (supplierId, CallRequested a)]"
proof -
  define st1 where "st1 = st\<lparr>agents := setBusy s False (agents st)\<rparr>"
  from reg obtain r where r: "map_of (agents st) s = Some r" by blast
  have k: "map fst (agents st1) = map fst (agents st)"
    by (simp add: st1_def keys_setBusy)
  have sk: "s \<in> set (map fst (agents st1))"
    using r k by (metis map_of_SomeD fst_conv imageI set_map)
  have sf: "map_of (agents st1) s = Some (r\<lparr>busy := False\<rparr>)"
    by (simp add: st1_def map_of_setBusy r)
  have "findFreeAgent st1 \<noteq> None"
    unfolding findFreeAgent_def find_None_iff using sk sf by force
  then obtain a where a: "findFreeAgent st1 = Some a" by blast
  from findFreeAgent_key [OF a] k have ak: "a \<in> set (map fst (agents st))" by simp
  with ne have an: "a \<noteq> []" by metis
  have q: "waitingQueue st1 = waitingQueue st" by (simp add: st1_def)
  from a ak reg q an show ?thesis
    by (auto simp add: agent_reject_def Let_def truthy_def st1_def [symmetric] simp del: set_map)
qed

text \<open>
  C2 (a rejection by the only registered agent).  After \<open>offer_trace\<close> agent A1 is the
  only agent and is paired with S1.  When A1 rejects S1, the handler clears the busy flag
  of A1, finds A1 itself free, and offers S1 to A1 again: both get the notifications of
  an offer, the queue stays empty and no queue-status is sent.
\<close>

theorem sole_agent_reject_reoffers:
  "run offer_trace init =
     \<lparr>agents = [(''A1'', \<lparr>name = ''Agent-A1'', busy = True\<rparr>)],
      waitingQueue = [],
      pairings = [(''S1'', ''A1''), (''A1'', ''S1'')]\<rparr>
   \<and> handle ''A1'' (AgentReject ''S1'') (run offer_trace init) =
       (\<lparr>agents = [(''A1'', \<lparr>name = ''Agent-A1'', busy = True\<rparr>)],
         waitingQueue = [],
         pairings = [(''S1'', ''A1''), (''A1'', ''S1'')]\<rparr>,
        [(''A1'', IncomingCall ''S1''), (''S1'', CallRequested ''A1'')])"
  by code_simp

text \<open>
  C3 (an agent is busy exactly when it is a key of the pairing table).  After
  \<open>reject_trace\<close> agent A2 is registered and not busy, and A2 is still a key of the
  pairing table.
\<close>

theorem reject_breaks_busy_iff_paired:
  "map_of (agents (run reject_trace init)) ''A2'' = Some \<lparr>name = ''Agent-A2'', busy = False\<rparr>
   \<and> map_of (pairings (run reject_trace init)) ''A2'' = Some ''S2''
   \<and> \<not> busy_iff_paired (run reject_trace init)"
  by code_simp

text \<open>
  Registering again while a supplier is offered has the same effect: agent-register
  stores a fresh record with \<^verbatim>\<open>busy: false\<close> and leaves the pairing table alone.
\<close>

lemma reregister_clears_busy_of_paired_agent:
  "handle ''A1'' (AgentRegister None) (run offer_trace init) =
     (\<lparr>agents = [(''A1'', \<lparr>name = ''Agent-A1'', busy = False\<rparr>)],
       waitingQueue = [],
       pairings = [(''S1'', ''A1''), (''A1'', ''S1'')]\<rparr>,
      [(''A1'', AgentRegistered ''Agent-A1'' 0)])"
  by code_simp

subsection \<open>The waiting queue\<close>

text \<open>
  C4 (no identifier is both queued and a key of the pairing table).  supplier-call only
  asks whether the caller is queued already.  In \<open>recall_trace\<close> supplier S1 has been
  offered to the only agent and calls again: no agent is free, S1 is appended to the
  queue, and its pairing entry is still there.
\<close>

theorem repeated_call_breaks_exclusivity:
  "run recall_trace init =
     \<lparr>agents = [(''A1'', \<lparr>name = ''Agent-A1'', busy = True\<rparr>)],
      waitingQueue = [''S1''],
      pairings = [(''S1'', ''A1''), (''A1'', ''S1'')]\<rparr>
   \<and> \<not> queue_pairing_exclusive (run recall_trace init)"
  by code_simp

text \<open>
  The branch of agent-reject that puts the supplier back in the queue (lines 83-86) does
  not delete \<^verbatim>\<open>pairings[supplierId]\<close> either.  It is reached when the sender is not
  a registered agent and no agent is free.
\<close>

lemma reject_from_non_agent_queues_paired_supplier:
  "handle ''X1'' (AgentReject ''S1'') (run offer_trace init) =
     (\<lparr>agents = [(''A1'', \<lparr>name = ''Agent-A1'', busy = True\<rparr>)],
       waitingQueue = [''S1''],
       pairings = [(''S1'', ''A1''), (''A1'', ''S1'')]\<rparr>,
      [(''S1'', QueueStatus 1)])"
  by code_simp

text \<open>
  C5 (no identifier is in the waiting queue twice).  The agent branch of disconnect
  pushes the agent's supplier without asking whether it is queued (line 143).  In
  \<open>recall_drop_trace\<close> supplier S1 is queued and paired with A1 when A1 disconnects,
  and the queue ends up holding S1 twice.
\<close>

theorem disconnect_duplicates_queue_entry:
  "run recall_drop_trace init =
     \<lparr>agents = [], waitingQueue = [''S1'', ''S1''], pairings = []\<rparr>
   \<and> \<not> queue_unique (run recall_drop_trace init)"
  by code_simp

subsection \<open>supplier-call\<close>

text \<open>
  C6 (supplier-call with a free agent).  Let the caller \<open>s\<close> not be queued and let some
  registered agent have \<^verbatim>\<open>busy: false\<close>.  The caller and the agent keys are
  identifiers that socket.io assigned (\<open>run_agent_keys_are_socket_ids\<close>): not empty
  and not \<^verbatim>\<open>__proto__\<close>.  Then the search finds a free agent \<open>a\<close>; the handler
  sets the busy flag of \<open>a\<close> and changes no other agent record; the pairing table gains
  \<^verbatim>\<open>pairings[s] = a\<close> and \<^verbatim>\<open>pairings[a] = s\<close> and keeps every other entry;
  \<open>a\<close> is sent incoming-call with \<open>s\<close>, then \<open>s\<close> is sent call-requested with
  \<open>a\<close>, and nothing else is sent; the waiting queue is as it was, so \<open>s\<close> is not
  queued.
\<close>

theorem supplier_call_offers_free_agent:
  assumes nq: "s \<notin> set (waitingQueue st)"
    and free: "\<exists>i r. map_of (agents st) i = Some r \<and> \<not> busy r"
    and keys: "\<forall>k \<in> set (map fst (agents st)). k \<noteq> [] \<and> k \<noteq> ''__proto__''"
    and sp: "s \<noteq> ''__proto__''"
  shows "\<exists>st' a r. supplier_call s st = (st', [(a, IncomingCall s), (s, CallRequested a)])
           \<and> map_of (agents st) a = Some r \<and> \<not> busy r
           \<and> map_of (agents st') a = Some (r\<lparr>busy := True\<rparr>)
           \<and> (\<forall>k. k \<noteq> a \<longrightarrow> map_of (agents st') k = map_of (agents st) k)
           \<and> map fst (agents st') = map fst (agents st)
           \<and> map_of (pairings st') s = Some a
           \<and> map_of (pairings st') a = Some s
           \<and> (\<forall>k. k \<noteq> s \<and> k \<noteq> a \<longrightarrow> map_of (pairings st') k = map_of (pairings st) k)
           \<and> waitingQueue st' = waitingQueue st
           \<and> s \<notin> set (waitingQueue st')"
proof -
  from free obtain i r0 where "map_of (agents st) i = Some r0" "\<not> busy r0" by blast
  from findFreeAgent_complete [OF this] obtain a where a: "findFreeAgent st = Some a" ..
  from findFreeAgent_key [OF a] keys have an: "a \<noteq> []" and ap: "a \<noteq> ''__proto__''"
    by blast+
  from findFreeAgent_Some [OF a] obtain r where
    r: "map_of (agents st) a = Some r" "\<not> busy r" by blast
  define st' where "st' = st\<lparr>agents := setBusy a True (agents st),
      pairings := setPairing a s (setPairing s a (pairings st))\<rparr>"
  have e: "supplier_call s st = (st', [(a, IncomingCall s), (s, CallRequested a)])"
    using nq a an by (simp add: supplier_call_def truthy_def Let_def st'_def)
  have g: "map_of (agents st') a = Some (r\<lparr>busy := True\<rparr>)"
    by (simp add: st'_def map_of_setBusy r)
  have f: "\<forall>k. k \<noteq> a \<longrightarrow> map_of (agents st') k = map_of (agents st) k"
    by (simp add: st'_def map_of_setBusy)
  have ks: "map fst (agents st') = map fst (agents st)"
    by (simp add: st'_def keys_setBusy)
  have p1: "map_of (pairings st') s = Some a"
    using ap sp by (simp add: st'_def map_of_setPairing)
  have p2: "map_of (pairings st') a = Some s"
    using ap by (simp add: st'_def map_of_setPairing)
  have p3: "\<forall>k. k \<noteq> s \<and> k \<noteq> a \<longrightarrow> map_of (pairings st') k = map_of (pairings st) k"
    by (simp add: st'_def map_of_setPairing)
  have w: "waitingQueue st' = waitingQueue st" by (simp add: st'_def)
  from e r g f ks p1 p2 p3 w nq show ?thesis
    by (intro exI [of _ st'] exI [of _ a] exI [of _ r]) simp
qed

text \<open>
  After \<open>second_agent_trace\<close> the first agent in key order, A1, is busy and the second,
  A2, is free: supplier S2 is offered to A2.
\<close>

theorem supplier_call_offers_free_agent_witness:
  "''S2'' \<notin> set (waitingQueue (run second_agent_trace init))
   \<and> (\<exists>i r. map_of (agents (run second_agent_trace init)) i = Some r \<and> \<not> busy r)
   \<and> map fst (agents (run second_agent_trace init)) = [''A1'', ''A2'']
   \<and> ''S2'' \<noteq> ''__proto__''
   \<and> (\<exists>st'. supplier_call ''S2'' (run second_agent_trace init) =
                (st', [(''A2'', IncomingCall ''S2''), (''S2'', CallRequested ''A2'')])
           \<and> map_of (pairings st') ''S2'' = Some ''A2''
           \<and> map_of (pairings st') ''A2'' = Some ''S2''
           \<and> map_of (pairings st') ''S1'' = Some ''A1''
           \<and> waitingQueue st' = [])"
proof -
  let ?st = "run second_agent_trace init"
  have v: "?st = \<lparr>agents = [(''A1'', \<lparr>name = ''Agent-A1'', busy = True\<rparr>),
                            (''A2'', \<lparr>name = ''Agent-A2'', busy = False\<rparr>)],
                  waitingQueue = [],
                  pairings = [(''S1'', ''A1''), (''A1'', ''S1'')]\<rparr>"
    by code_simp
  have h1: "''S2'' \<notin> set (waitingQueue ?st)" by (simp add: v)
  have "map_of (agents ?st) ''A2'' = Some \<lparr>name = ''Agent-A2'', busy = False\<rparr>
          \<and> \<not> busy \<lparr>name = ''Agent-A2'', busy = False\<rparr>"
    by (simp add: v)
  then have h2: "\<exists>i r. map_of (agents ?st) i = Some r \<and> \<not> busy r" by blast
  have h3: "\<forall>k \<in> set (map fst (agents ?st)). k \<noteq> [] \<and> k \<noteq> ''__proto__''" by (simp add: v)
  have h4: "''S2'' \<noteq> ''__proto__''" by simp
  from supplier_call_offers_free_agent [OF h1 h2 h3 h4] obtain st' a where
    e: "supplier_call ''S2'' ?st = (st', [(a, IncomingCall ''S2''), (''S2'', CallRequested a)])"
    and p1: "map_of (pairings st') ''S2'' = Some a"
    and p2: "map_of (pairings st') a = Some ''S2''"
    and p3: "\<forall>k. k \<noteq> ''S2'' \<and> k \<noteq> a \<longrightarrow> map_of (pairings st') k = map_of (pairings ?st) k"
    and w: "waitingQueue st' = waitingQueue ?st"
    by blast
  have "snd (supplier_call ''S2'' ?st) =
          [(''A2'', IncomingCall ''S2''), (''S2'', CallRequested ''A2'')]"
    by code_simp
  with e have a: "a = ''A2''" by simp
  from p3 a have "map_of (pairings st') ''S1'' = map_of (pairings ?st) ''S1''" by simp
  then have p4: "map_of (pairings st') ''S1'' = Some ''A1''" by (simp add: v)
  from w have w': "waitingQueue st' = []" by (simp add: v)
  from e p1 p2 a have c: "supplier_call ''S2'' ?st =
                (st', [(''A2'', IncomingCall ''S2''), (''S2'', CallRequested ''A2'')])
           \<and> map_of (pairings st') ''S2'' = Some ''A2''
           \<and> map_of (pairings st') ''A2'' = Some ''S2''" by simp
  have h3': "map fst (agents ?st) = [''A1'', ''A2'']" by (simp add: v)
  from h1 h2 h3' h4 c p4 w' show ?thesis by blast
qed

text \<open>
  C8 (supplier-call from a queued supplier).  When the caller is in the waiting queue the
  handler changes none of the three stores and sends the caller one queue-status whose
  position is one more than the index of the caller's first occurrence in the queue: a
  position between 1 and the queue length at which the queue holds the caller.
\<close>

theorem queued_supplier_call_is_probe:
  assumes "s \<in> set (waitingQueue st)"
  shows "supplier_call s st = (st, [(s, QueueStatus (indexOf (waitingQueue st) s + 1))])
         \<and> 1 \<le> indexOf (waitingQueue st) s + 1
         \<and> indexOf (waitingQueue st) s + 1 \<le> int (length (waitingQueue st))
         \<and> waitingQueue st ! nat (indexOf (waitingQueue st) s) = s
         \<and> s \<notin> set (take (nat (indexOf (waitingQueue st) s)) (waitingQueue st))"
  using assms indexOf_mem [OF assms] by (simp add: supplier_call_def)

theorem queued_supplier_call_is_probe_witness:
  "''S2'' \<in> set (waitingQueue \<lparr>agents = [], waitingQueue = [''S1'', ''S2''], pairings = []\<rparr>)
   \<and> supplier_call ''S2'' \<lparr>agents = [], waitingQueue = [''S1'', ''S2''], pairings = []\<rparr> =
       (\<lparr>agents = [], waitingQueue = [''S1'', ''S2''], pairings = []\<rparr>,
        [(''S2'', QueueStatus 2)])"
proof -
  have h: "''S2'' \<in> set (waitingQueue \<lparr>agents = [], waitingQueue = [''S1'', ''S2''], pairings = []\<rparr>)"
    by simp
  from queued_supplier_call_is_probe [OF h] h show ?thesis by simp
qed

subsection \<open>agent-accept\<close>

text \<open>
  C9, as the claim states it, fails for an agent-accept that arrives with no payload:
  the listener of line 62 destructures its argument before the guard of line 63, so for
  a sender that is not a registered agent, as S1 after \<open>offer_trace\<close>, the event ends
  in a TypeError and not in a silent return.
\<close>

theorem accept_without_payload_throws:
  "map_of (agents (run offer_trace init)) ''S1'' = None
   \<and> receive ''S1'' (Bare KAgentAccept) (run offer_trace init) = Inl TypeError"
  by code_simp

text \<open>
  C9, amended (agent-accept from a connection that is not a registered agent).  For
  every agent-accept event that carries a payload, whatever its \<^verbatim>\<open>supplierId\<close>,
  the handler returns at line 63: the three stores are unchanged and nothing is emitted.
  An agent-accept event with no payload throws at the destructuring of line 62, before
  any store is read.
\<close>

theorem accept_from_non_agent_is_noop:
  assumes "map_of (agents st) s = None"
  shows "receive s (Carrying (AgentAccept supplierId)) st = Inr (st, [])
         \<and> handle s (AgentAccept supplierId) st = (st, [])
         \<and> receive s (Bare KAgentAccept) st = Inl TypeError"
  using assms by (simp add: agent_accept_def)

theorem accept_from_non_agent_is_noop_witness:
  "map_of (agents (run offer_trace init)) ''S1'' = None
   \<and> receive ''S1'' (Carrying (AgentAccept ''S1'')) (run offer_trace init) =
       Inr (run offer_trace init, [])"
proof -
  have h: "map_of (agents (run offer_trace init)) ''S1'' = None" by code_simp
  from accept_from_non_agent_is_noop [OF h] h show ?thesis by blast
qed

subsection \<open>end-call\<close>

text \<open>
  C7, as the claim states it, fails in three ways.

  After \<open>empty_reject_trace\<close> the queue holds the empty \<^verbatim>\<open>supplierId\<close> of an
  agent-reject that a non-agent sent.  When S1 then ends its call with A1, the teardown
  leaves A1 free and the queue non-empty; the handler pops the front, the test
  \<^verbatim>\<open>if (nextSupplier)\<close> of line 117 fails, and nothing is paired or notified beyond
  call-ended.

  After \<open>proto_reject_trace\<close> the queue front is \<^verbatim>\<open>__proto__\<close>.  The same
  end-call pops it, marks A1 busy, stores \<^verbatim>\<open>pairings[A1]\<close> and sends both
  notifications, but the assignment of line 120 creates no key: only one of the two
  pairing entries exists afterwards.

  After \<open>idle_agent_trace\<close> agent A1 is free and S2 is queued.  An end-call that
  arrives with no payload throws at the destructuring of line 103: nothing is popped.
\<close>

theorem end_call_promotion_exceptions:
  "end_call_teardown ''S1'' ''A1'' (run empty_reject_trace init) =
     (\<lparr>agents = [(''A1'', \<lparr>name = ''Agent-A1'', busy = False\<rparr>)],
       waitingQueue = [''''], pairings = []\<rparr>,
      [(''A1'', CallEnded ''S1'')])
   \<and> handle ''S1'' (EndCall ''A1'') (run empty_reject_trace init) =
     (\<lparr>agents = [(''A1'', \<lparr>name = ''Agent-A1'', busy = False\<rparr>)],
       waitingQueue = [], pairings = []\<rparr>,
      [(''A1'', CallEnded ''S1'')])
   \<and> end_call_teardown ''S1'' ''A1'' (run proto_reject_trace init) =
     (\<lparr>agents = [(''A1'', \<lparr>name = ''Agent-A1'', busy = False\<rparr>)],
       waitingQueue = [''__proto__''], pairings = []\<rparr>,
      [(''A1'', CallEnded ''S1'')])
   \<and> handle ''S1'' (EndCall ''A1'') (run proto_reject_trace init) =
     (\<lparr>agents = [(''A1'', \<lparr>name = ''Agent-A1'', busy = True\<rparr>)],
       waitingQueue = [], pairings = [(''A1'', ''__proto__'')]\<rparr>,
      [(''A1'', CallEnded ''S1''), (''A1'', IncomingCall ''__proto__''),
       (''__proto__'', CallRequested ''A1'')])
   \<and> run idle_agent_trace init =
     \<lparr>agents = [(''A1'', \<lparr>name = ''Agent-A1'', busy = False\<rparr>)],
      waitingQueue = [''S2''], pairings = []\<rparr>
   \<and> receive ''A1'' (Bare KEndCall) (run idle_agent_trace init) = Inl TypeError"
  by code_simp

text \<open>
  C7, amended (the promotion of end-call).  Take an end-call event that carries a
  payload, and let \<open>st1\<close> be the stores after the teardown of lines 104-111.  If some
  registered agent is free in \<open>st1\<close> (agent keys being identifiers that socket.io
  assigned) and the queue is \<open>q # qs\<close>, the handler pops exactly the front \<open>q\<close>, so
  that the queue becomes \<open>qs\<close>, and picks a free agent \<open>a\<close>.  If \<open>q\<close> is not the
  empty string, \<open>a\<close> becomes busy and no other agent record changes,
  \<^verbatim>\<open>pairings[a] = q\<close> is stored, \<^verbatim>\<open>pairings[q] = a\<close> is stored unless \<open>q\<close>
  is \<^verbatim>\<open>__proto__\<close> (then that key is as before), no other pairing entry changes, and
  after call-ended \<open>a\<close> is sent incoming-call with \<open>q\<close> and \<open>q\<close> call-requested
  with \<open>a\<close>.  If \<open>q\<close> is the empty string it is dropped: nothing else changes and
  nothing more is sent.  In every case no other queued supplier is promoted.
\<close>

theorem end_call_promotes_queue_front:
  assumes td: "end_call_teardown s p st = (st1, out1)"
    and free: "\<exists>i r. map_of (agents st1) i = Some r \<and> \<not> busy r"
    and keys: "\<forall>k \<in> set (map fst (agents st1)). k \<noteq> [] \<and> k \<noteq> ''__proto__''"
    and q: "waitingQueue st1 = q # qs"
  shows "\<exists>st2 out2 a. receive s (Carrying (EndCall p)) st = Inr (st2, out1 @ out2)
     \<and> waitingQueue st2 = qs
     \<and> (if q \<noteq> []
         then out2 = [(a, IncomingCall q), (q, CallRequested a)]
            \<and> (\<exists>r. map_of (agents st1) a = Some r \<and> \<not> busy r
                   \<and> map_of (agents st2) a = Some (r\<lparr>busy := True\<rparr>))
            \<and> (\<forall>k. k \<noteq> a \<longrightarrow> map_of (agents st2) k = map_of (agents st1) k)
            \<and> map_of (pairings st2) a = Some q
            \<and> map_of (pairings st2) q =
                (if q = ''__proto__'' then map_of (pairings st1) q else Some a)
            \<and> (\<forall>k. k \<noteq> a \<and> k \<noteq> q \<longrightarrow> map_of (pairings st2) k = map_of (pairings st1) k)
         else out2 = [] \<and> agents st2 = agents st1 \<and> pairings st2 = pairings st1)"
proof -
  from promote_front [OF free keys q] obtain st2 out2 a where
    pr: "end_call_promote st1 = (st2, out2)" and
    rest: "waitingQueue st2 = qs
     \<and> (if q \<noteq> []
         then out2 = [(a, IncomingCall q), (q, CallRequested a)]
            \<and> (\<exists>r. map_of (agents st1) a = Some r \<and> \<not> busy r
                   \<and> map_of (agents st2) a = Some (r\<lparr>busy := True\<rparr>))
            \<and> (\<forall>k. k \<noteq> a \<longrightarrow> map_of (agents st2) k = map_of (agents st1) k)
            \<and> map_of (pairings st2) a = Some q
            \<and> map_of (pairings st2) q =
                (if q = ''__proto__'' then map_of (pairings st1) q else Some a)
            \<and> (\<forall>k. k \<noteq> a \<and> k \<noteq> q \<longrightarrow> map_of (pairings st2) k = map_of (pairings st1) k)
         else out2 = [] \<and> agents st2 = agents st1 \<and> pairings st2 = pairings st1)"
    by blast
  have "receive s (Carrying (EndCall p)) st = Inr (st2, out1 @ out2)"
    by (simp add: end_call_def td pr)
  with rest show ?thesis by blast
qed

text \<open>
  After \<open>second_agent_trace\<close> and a second supplier-call, S2 is with A2.  Then a third
  supplier, S3, queues, and A2 ends its call with S2.  The first agent in key order, A1,
  is still busy with S1: the free agent is A2, and S3 is offered to A2.
\<close>

theorem end_call_promotes_queue_front_witness:
  "end_call_teardown ''A2'' ''S2''
      (run (second_agent_trace @ [(''S2'', SupplierCall), (''S3'', SupplierCall)]) init) =
     (\<lparr>agents = [(''A1'', \<lparr>name = ''Agent-A1'', busy = True\<rparr>),
                 (''A2'', \<lparr>name = ''Agent-A2'', busy = False\<rparr>)],
       waitingQueue = [''S3''],
       pairings = [(''S1'', ''A1''), (''A1'', ''S1'')]\<rparr>,
      [(''S2'', CallEnded ''A2'')])
   \<and> (\<exists>st2. receive ''A2'' (Carrying (EndCall ''S2''))
          (run (second_agent_trace @ [(''S2'', SupplierCall), (''S3'', SupplierCall)]) init) =
          Inr (st2, [(''S2'', CallEnded ''A2''), (''A2'', IncomingCall ''S3''),
                     (''S3'', CallRequested ''A2'')])
        \<and> waitingQueue st2 = []
        \<and> map_of (pairings st2) ''A2'' = Some ''S3''
        \<and> map_of (pairings st2) ''S3'' = Some ''A2''
        \<and> map_of (pairings st2) ''S1'' = Some ''A1'')"
proof -
  let ?st = "run (second_agent_trace @ [(''S2'', SupplierCall), (''S3'', SupplierCall)]) init"
  let ?st1 = "\<lparr>agents = [(''A1'', \<lparr>name = ''Agent-A1'', busy = True\<rparr>),
                          (''A2'', \<lparr>name = ''Agent-A2'', busy = False\<rparr>)],
               waitingQueue = [''S3''],
               pairings = [(''S1'', ''A1''), (''A1'', ''S1'')]\<rparr>"
  have h1: "end_call_teardown ''A2'' ''S2'' ?st = (?st1, [(''S2'', CallEnded ''A2'')])"
    by code_simp
  have "map_of (agents ?st1) ''A2'' = Some \<lparr>name = ''Agent-A2'', busy = False\<rparr>
          \<and> \<not> busy \<lparr>name = ''Agent-A2'', busy = False\<rparr>"
    by simp
  then have h2: "\<exists>i r. map_of (agents ?st1) i = Some r \<and> \<not> busy r" by blast
  have h3: "\<forall>k \<in> set (map fst (agents ?st1)). k \<noteq> [] \<and> k \<noteq> ''__proto__''" by simp
  have h4: "waitingQueue ?st1 = ''S3'' # []" by simp
  from end_call_promotes_queue_front [OF h1 h2 h3 h4] obtain st2 out2 a where
    e: "receive ''A2'' (Carrying (EndCall ''S2'')) ?st =
          Inr (st2, [(''S2'', CallEnded ''A2'')] @ out2)" and
    w: "waitingQueue st2 = []" and
    c: "if ''S3'' \<noteq> []
         then out2 = [(a, IncomingCall ''S3''), (''S3'', CallRequested a)]
            \<and> (\<exists>r. map_of (agents ?st1) a = Some r \<and> \<not> busy r
                   \<and> map_of (agents st2) a = Some (r\<lparr>busy := True\<rparr>))
            \<and> (\<forall>k. k \<noteq> a \<longrightarrow> map_of (agents st2) k = map_of (agents ?st1) k)
            \<and> map_of (pairings st2) a = Some ''S3''
            \<and> map_of (pairings st2) ''S3'' =
                (if ''S3'' = ''__proto__'' then map_of (pairings ?st1) ''S3'' else Some a)
            \<and> (\<forall>k. k \<noteq> a \<and> k \<noteq> ''S3'' \<longrightarrow> map_of (pairings st2) k = map_of (pairings ?st1) k)
         else out2 = [] \<and> agents st2 = agents ?st1 \<and> pairings st2 = pairings ?st1"
    by blast
  have ne: "''S3'' \<noteq> []" by simp
  note c' = c [unfolded if_P [OF ne]]
  from c' have o: "out2 = [(a, IncomingCall ''S3''), (''S3'', CallRequested a)]"
    by (rule conjunct1)
  from c' have "\<exists>r. map_of (agents ?st1) a = Some r \<and> \<not> busy r
                   \<and> map_of (agents st2) a = Some (r\<lparr>busy := True\<rparr>)"
    by (rule conjunct2 [THEN conjunct1])
  then have a: "a = ''A2''" by (auto split: if_splits)
  from c' have p1: "map_of (pairings st2) a = Some ''S3''"
    by (rule conjunct2 [THEN conjunct2, THEN conjunct2, THEN conjunct1])
  from c' have "map_of (pairings st2) ''S3'' =
                (if ''S3'' = ''__proto__'' then map_of (pairings ?st1) ''S3'' else Some a)"
    by (rule conjunct2 [THEN conjunct2, THEN conjunct2, THEN conjunct2, THEN conjunct1])
  then have p2: "map_of (pairings st2) ''S3'' = Some a" by simp
  from c' have "\<forall>k. k \<noteq> a \<and> k \<noteq> ''S3'' \<longrightarrow> map_of (pairings st2) k = map_of (pairings ?st1) k"
    by (rule conjunct2 [THEN conjunct2, THEN conjunct2, THEN conjunct2, THEN conjunct2])
  with a have p3: "map_of (pairings st2) ''S1'' = Some ''A1''" by simp
  from e o a have e': "receive ''A2'' (Carrying (EndCall ''S2'')) ?st =
          Inr (st2, [(''S2'', CallEnded ''A2''), (''A2'', IncomingCall ''S3''),
                     (''S3'', CallRequested ''A2'')])" by simp
  show ?thesis
  proof (intro conjI)
    show "end_call_teardown ''A2'' ''S2'' ?st = (?st1, [(''S2'', CallEnded ''A2'')])"
      by (rule h1)
    show "\<exists>st2. receive ''A2'' (Carrying (EndCall ''S2'')) ?st =
          Inr (st2, [(''S2'', CallEnded ''A2''), (''A2'', IncomingCall ''S3''),
                     (''S3'', CallRequested ''A2'')])
        \<and> waitingQueue st2 = []
        \<and> map_of (pairings st2) ''A2'' = Some ''S3''
        \<and> map_of (pairings st2) ''S3'' = Some ''A2''
        \<and> map_of (pairings st2) ''S1'' = Some ''A1''"
      using e' w p1 p2 p3 a by blast
  qed
qed

text \<open>
  C10, as the claim states it, fails for a pairing entry that holds the empty string.
  After \<open>empty_accept_trace\<close> the table has \<^verbatim>\<open>pairings[A1] = ""\<close>.  When the
  connection X1, paired with nobody, sends end-call with partner A1, the busy flag of A1
  is cleared and A1 is sent call-ended, but the test \<^verbatim>\<open>if (pairings[other])\<close> of
  line 109 fails on the empty string and the entry keyed by A1 stays.
\<close>

theorem falsy_pairing_entry_survives_end_call:
  "run empty_accept_trace init =
     \<lparr>agents = [(''A1'', \<lparr>name = ''Agent-A1'', busy = True\<rparr>)],
      waitingQueue = [], pairings = [('''', ''A1''), (''A1'', '''')]\<rparr>
   \<and> handle ''X1'' (EndCall ''A1'') (run empty_accept_trace init) =
     (\<lparr>agents = [(''A1'', \<lparr>name = ''Agent-A1'', busy = False\<rparr>)],
       waitingQueue = [], pairings = [('''', ''A1''), (''A1'', '''')]\<rparr>,
      [(''A1'', CallEnded ''X1'')])
   \<and> map_of (pairings (fst (handle ''X1'' (EndCall ''A1'') (run empty_accept_trace init)))) ''A1''
       = Some ''''"
  by code_simp


text \<open>
  C10, amended (the teardown of end-call, lines 104-111).  For every caller \<open>s\<close>, every
  \<open>partnerId\<close> \<open>p\<close> and every state, paired or not: the busy flag of \<open>s\<close> and of
  \<open>p\<close> is cleared where that identifier is a registered agent, and no other agent
  record changes; the pairing entries keyed by \<open>s\<close> and by \<open>p\<close> are deleted where they
  hold a non-empty identifier, and every other entry, also an entry of \<open>s\<close> or \<open>p\<close>
  that holds the empty string, stays; the queue is untouched; and call-ended by \<open>s\<close> is
  the first notification of the event, addressed to \<open>p\<close>.  Nothing compares \<open>p\<close> with
  \<^verbatim>\<open>pairings[socket.id]\<close>.  The promotion that follows may offer a freed agent the
  queue front.
\<close>

theorem end_call_teardown_effect:
  "\<exists>st1. end_call_teardown s p st = (st1, [(p, CallEnded s)])
     \<and> map fst (agents st1) = map fst (agents st)
     \<and> (\<forall>k. map_of (agents st1) k =
            (if k = s \<or> k = p then map_option (\<lambda>r. r\<lparr>busy := False\<rparr>) (map_of (agents st) k)
             else map_of (agents st) k))
     \<and> (\<forall>k. map_of (pairings st1) k =
            (if (k = s \<or> k = p) \<and> truthy (map_of (pairings st) k) then None
             else map_of (pairings st) k))
     \<and> waitingQueue st1 = waitingQueue st
     \<and> end_call s p st =
         (fst (end_call_promote st1), (p, CallEnded s) # snd (end_call_promote st1))"
proof -
  define st1 where "st1 = fst (end_call_teardown s p st)"
  have e: "end_call_teardown s p st = (st1, [(p, CallEnded s)])"
    unfolding st1_def by (rule prod_eqI) (simp_all add: teardown_emits)
  have a: "\<forall>k. map_of (agents st1) k =
            (if k = s \<or> k = p then map_option (\<lambda>r. r\<lparr>busy := False\<rparr>) (map_of (agents st) k)
             else map_of (agents st) k)"
    unfolding st1_def using teardown_agents by blast
  have b: "\<forall>k. map_of (pairings st1) k =
            (if (k = s \<or> k = p) \<and> truthy (map_of (pairings st) k) then None
             else map_of (pairings st) k)"
    unfolding st1_def using teardown_pairings by blast
  have c: "end_call s p st =
         (fst (end_call_promote st1), (p, CallEnded s) # snd (end_call_promote st1))"
    unfolding st1_def by (simp add: end_call_split [of s p st] teardown_emits)
  have k: "map fst (agents st1) = map fst (agents st)"
    unfolding st1_def by (rule teardown_agent_keys)
  have q: "waitingQueue st1 = waitingQueue st"
    unfolding st1_def by (rule teardown_queue)
  show ?thesis
  proof (intro exI [of _ st1] conjI)
    show "end_call_teardown s p st = (st1, [(p, CallEnded s)])" by (rule e)
    show "map fst (agents st1) = map fst (agents st)" by (rule k)
    show "\<forall>k. map_of (agents st1) k =
            (if k = s \<or> k = p then map_option (\<lambda>r. r\<lparr>busy := False\<rparr>) (map_of (agents st) k)
             else map_of (agents st) k)" by (rule a)
    show "\<forall>k. map_of (pairings st1) k =
            (if (k = s \<or> k = p) \<and> truthy (map_of (pairings st) k) then None
             else map_of (pairings st) k)" by (rule b)
    show "waitingQueue st1 = waitingQueue st" by (rule q)
    show "end_call s p st =
         (fst (end_call_promote st1), (p, CallEnded s) # snd (end_call_promote st1))" by (rule c)
  qed
qed

end
